theory Spec2Isabelle
  imports Main "HOL-Library.AList"
begin

section \<open>The ec2\_vpc\_net module: data\<close>

text \<open>
  The module \<^verbatim>\<open>lib/ansible/modules/cloud/amazon/ec2_vpc_net.py\<close> reconciles one VPC
  against the module parameters. The parameters are a record, the two enumerated
  parameters are datatypes, and a Python \<^verbatim>\<open>dict\<close> of strings is an association list
  (insertion order kept, compared by \<open>dict_eq\<close>, which ignores the order).
\<close>

datatype tenancy = Default | Dedicated

datatype target = Present | Absent

type_synonym dict = "(string \<times> string) list"

record params =
  name :: string
  cidr_block :: string
  tenancy :: tenancy
  dns_support :: bool
  dns_hostnames :: bool
  dhcp_opts_id :: "string option"
  tags :: "dict option"
  state :: target
  multi_ok :: bool
  check_mode :: bool

text \<open>
  The attributes of a boto VPC object that the module reads (\<^verbatim>\<open>id\<close>,
  \<^verbatim>\<open>dhcp_options_id\<close>) or returns through \<^verbatim>\<open>get_vpc_values\<close>.
\<close>

record vpc =
  vpc_id :: string
  vpc_cidr_block :: string
  vpc_state :: string
  dhcp_options_id :: string
  instance_tenancy :: tenancy
  is_default :: bool
  classic_link_enabled :: bool
  vpc_tags :: dict

text \<open>
  What a call of the connection can raise, and what the module itself can raise: the
  module's handlers tell \<^verbatim>\<open>BotoServerError\<close> from every other exception,
  \<^verbatim>\<open>xs[0]\<close> raises \<^verbatim>\<open>IndexError\<close> on an empty list, and \<^verbatim>\<open>fail_json\<close> raises
  \<^verbatim>\<open>TypeError\<close> when its message is an exception object instead of a string.
\<close>

datatype exn = BotoServerError string | IndexError | TypeError | OtherException string

text \<open>
  The messages of \<^verbatim>\<open>module.fail_json\<close>. \<open>Msg_exception e\<close> stands for
  \<^verbatim>\<open>msg=boto_exception(e)\<close>; \<open>Msg_delete_dependencies e\<close> for the
  message of the delete handler, which names the subnet, gateway and route table modules.
\<close>

datatype msg =
    Msg_dns_hostnames_requires_dns_support
  | Msg_duplicate_vpcs nat
  | Msg_exception exn
  | Msg_delete_dependencies exn

text \<open>
  How an invocation ends: \<^verbatim>\<open>exit_json(changed=..., vpc=...)\<close> (the \<^verbatim>\<open>vpc\<close> entry is
  \<open>None\<close> both when it is \<^verbatim>\<open>None\<close> and when it is left out), \<^verbatim>\<open>fail_json(msg=...)\<close>,
  or an exception that no handler catches.
\<close>

datatype outcome = Exit_json bool "vpc option" | Fail_json msg | Uncaught exn

text \<open>The requests that the module sends through the connection.\<close>

datatype call =
    Get_all_vpcs_filters string string
  | Get_all_vpcs_ids string
  | Create_vpc string tenancy
  | Associate_dhcp_options string string
  | Get_all_tags string
  | Create_tags string dict
  | Modify_dns_support string bool
  | Modify_dns_hostnames string bool
  | Delete_vpc string

fun mutating :: "call \<Rightarrow> bool" where
  "mutating (Get_all_vpcs_filters n c) = False"
| "mutating (Get_all_vpcs_ids i) = False"
| "mutating (Get_all_tags i) = False"
| "mutating (Create_vpc c t) = True"
| "mutating (Associate_dhcp_options d i) = True"
| "mutating (Create_tags i ts) = True"
| "mutating (Modify_dns_support i b) = True"
| "mutating (Modify_dns_hostnames i b) = True"
| "mutating (Delete_vpc i) = True"

fun find_or_get_tags :: "call \<Rightarrow> bool" where
  "find_or_get_tags (Get_all_vpcs_filters n c) = True"
| "find_or_get_tags (Get_all_tags i) = True"
| "find_or_get_tags (Get_all_vpcs_ids i) = False"
| "find_or_get_tags (Create_vpc c t) = False"
| "find_or_get_tags (Associate_dhcp_options d i) = False"
| "find_or_get_tags (Create_tags i ts) = False"
| "find_or_get_tags (Modify_dns_support i b) = False"
| "find_or_get_tags (Modify_dns_hostnames i b) = False"
| "find_or_get_tags (Delete_vpc i) = False"

text \<open>
  The boto connection is outside the module: it is a record of methods over a remote
  state \<open>'s\<close> that the module never sees. Each method returns its result or the exception
  it raises, and the remote state after the request.
\<close>

record 's connection =
  get_all_vpcs_filters :: "string \<Rightarrow> string \<Rightarrow> 's \<Rightarrow> (exn + vpc list) \<times> 's"
  get_all_vpcs_ids :: "string \<Rightarrow> 's \<Rightarrow> (exn + vpc list) \<times> 's"
  create_vpc :: "string \<Rightarrow> tenancy \<Rightarrow> 's \<Rightarrow> (exn + vpc) \<times> 's"
  associate_dhcp_options :: "string \<Rightarrow> string \<Rightarrow> 's \<Rightarrow> (exn + unit) \<times> 's"
  get_all_tags :: "string \<Rightarrow> 's \<Rightarrow> (exn + (string \<times> string) list) \<times> 's"
  create_tags :: "string \<Rightarrow> dict \<Rightarrow> 's \<Rightarrow> (exn + unit) \<times> 's"
  modify_dns_support :: "string \<Rightarrow> bool \<Rightarrow> 's \<Rightarrow> (exn + unit) \<times> 's"
  modify_dns_hostnames :: "string \<Rightarrow> bool \<Rightarrow> 's \<Rightarrow> (exn + unit) \<times> 's"
  delete_vpc :: "string \<Rightarrow> 's \<Rightarrow> (exn + unit) \<times> 's"

text \<open>
  An invocation runs in a world: the remote state and the requests sent so far, oldest
  first. \<open>invoke\<close> sends one request and records it, whether it raises or not.
\<close>

type_synonym 's world = "'s \<times> call list"

definition invoke ::
  "call \<Rightarrow> ('s \<Rightarrow> (exn + 'a) \<times> 's) \<Rightarrow> 's world \<Rightarrow> (exn + 'a) \<times> 's world" where
  "invoke c m w = (case m (fst w) of (r, s') \<Rightarrow> (r, (s', snd w @ [c])))"

text \<open>
  A step of \<^verbatim>\<open>main\<close> either ends the invocation (\<open>Inl\<close>: \<^verbatim>\<open>exit_json\<close>, \<^verbatim>\<open>fail_json\<close>
  or an uncaught exception) or hands a value to the next step.
\<close>

definition then_step ::
  "(outcome + 'a) \<times> 's world \<Rightarrow> ('a \<Rightarrow> 's world \<Rightarrow> (outcome + 'b) \<times> 's world)
     \<Rightarrow> (outcome + 'b) \<times> 's world" where
  "then_step r f = (case r of (Inl out, w) \<Rightarrow> (Inl out, w) | (Inr x, w) \<Rightarrow> f x w)"

text \<open>
  \<^verbatim>\<open>except BotoServerError as e: module.fail_json(msg=boto_exception(e))\<close> (lines 302
  to 304 and 310 to 312); anything else propagates.
\<close>

fun except_BotoServerError :: "exn \<Rightarrow> outcome" where
  "except_BotoServerError (BotoServerError m) = Fail_json (Msg_exception (BotoServerError m))"
| "except_BotoServerError e = Uncaught e"

text \<open>
  \<^verbatim>\<open>except BotoServerError as e: module.fail_json(msg=e)\<close> (lines 278 to 279 and 285 to
  286): the message is the exception object itself, not its text. \<^verbatim>\<open>fail_json\<close>
  cannot render it and raises \<^verbatim>\<open>TypeError\<close>, which nothing catches, so the invocation
  ends with that exception and not with a failure message. Anything else propagates.
\<close>

fun except_BotoServerError_msg_e :: "exn \<Rightarrow> outcome" where
  "except_BotoServerError_msg_e (BotoServerError m) = Uncaught TypeError"
| "except_BotoServerError_msg_e e = Uncaught e"

text \<open>The handler of the delete request (lines 327 to 330).\<close>

fun except_delete :: "exn \<Rightarrow> outcome" where
  "except_delete (BotoServerError m) = Fail_json (Msg_delete_dependencies (BotoServerError m))"
| "except_delete e = Uncaught e"

section \<open>Dictionaries\<close>

text \<open>
  \<^verbatim>\<open>dict(pairs)\<close>: a later pair overrides an earlier one with the same key.
  \<open>AList.update\<close> is \<^verbatim>\<open>d[k] = v\<close>. Equality of two dicts is equality of their
  lookups, tested on the keys of both.
\<close>

definition dict_of :: "(string \<times> string) list \<Rightarrow> dict" where
  "dict_of ps = foldl (\<lambda>d kv. AList.update (fst kv) (snd kv) d) [] ps"

definition dict_eq :: "dict \<Rightarrow> dict \<Rightarrow> bool" where
  "dict_eq a b = list_all (\<lambda>k. map_of a k = map_of b k) (map fst a @ map fst b)"

section \<open>The module's functions\<close>

text \<open>
  \<^verbatim>\<open>vpc_exists(module, vpc, name, cidr_block, multi)\<close>, lines 149 to 171. The lookup is
  sent first; \<^verbatim>\<open>multi\<close> is tested after it.
\<close>

definition vpc_exists ::
  "'s connection \<Rightarrow> string \<Rightarrow> string \<Rightarrow> bool \<Rightarrow> 's world \<Rightarrow> (outcome + vpc option) \<times> 's world" where
  "vpc_exists conn nm cidr multi w =
     (case invoke (Get_all_vpcs_filters nm cidr) (get_all_vpcs_filters conn nm cidr) w of
        (Inl e, w1) \<Rightarrow> (Inl (Fail_json (Msg_exception e)), w1)
      | (Inr matching_vpcs, w1) \<Rightarrow>
          if multi then (Inr None, w1)
          else if length matching_vpcs = 1 then (Inr (Some (matching_vpcs ! 0)), w1)
          else if length matching_vpcs > 1
            then (Inl (Fail_json (Msg_duplicate_vpcs (length matching_vpcs))), w1)
          else (Inr None, w1))"

text \<open>
  The tags that \<^verbatim>\<open>update_vpc_tags\<close> compares and writes: \<^verbatim>\<open>tags\<close>, or an empty dict
  when it is \<^verbatim>\<open>None\<close>, after \<^verbatim>\<open>tags.update({'Name': name})\<close>.
\<close>

definition effective_tags :: "dict option \<Rightarrow> string \<Rightarrow> dict" where
  "effective_tags ts nm =
     AList.update ''Name'' nm (case ts of None \<Rightarrow> [] | Some t \<Rightarrow> t)"

text \<open>
  \<^verbatim>\<open>update_vpc_tags(vpc, module, vpc_obj, tags, name)\<close>, lines 174 to 190. Every
  exception of the two requests is caught and becomes \<^verbatim>\<open>fail_json\<close>.
\<close>

definition update_vpc_tags ::
  "'s connection \<Rightarrow> bool \<Rightarrow> vpc \<Rightarrow> dict option \<Rightarrow> string \<Rightarrow> 's world
     \<Rightarrow> (outcome + bool) \<times> 's world" where
  "update_vpc_tags conn chk vpc_obj ts nm w =
     (let ts' = effective_tags ts nm in
      case invoke (Get_all_tags (vpc_id vpc_obj)) (get_all_tags conn (vpc_id vpc_obj)) w of
        (Inl e, w1) \<Rightarrow> (Inl (Fail_json (Msg_exception e)), w1)
      | (Inr found, w1) \<Rightarrow>
          let current_tags = dict_of found in
          if \<not> dict_eq ts' current_tags then
            if \<not> chk then
              (case invoke (Create_tags (vpc_id vpc_obj) ts')
                      (create_tags conn (vpc_id vpc_obj) ts') w1 of
                 (Inl e, w2) \<Rightarrow> (Inl (Fail_json (Msg_exception e)), w2)
               | (Inr u, w2) \<Rightarrow> (Inr True, w2))
            else (Inr True, w1)
          else (Inr False, w1))"

text \<open>
  \<^verbatim>\<open>update_dhcp_opts(connection, module, vpc_obj, dhcp_id)\<close>, lines 193 to 200. It has no
  handler of its own: an exception of the request reaches the caller.
\<close>

definition update_dhcp_opts ::
  "'s connection \<Rightarrow> bool \<Rightarrow> vpc \<Rightarrow> string \<Rightarrow> 's world \<Rightarrow> (exn + bool) \<times> 's world" where
  "update_dhcp_opts conn chk vpc_obj dhcp_id w =
     (if dhcp_options_id vpc_obj \<noteq> dhcp_id then
        if \<not> chk then
          (case invoke (Associate_dhcp_options dhcp_id (vpc_id vpc_obj))
                  (associate_dhcp_options conn dhcp_id (vpc_id vpc_obj)) w of
             (Inl e, w1) \<Rightarrow> (Inl e, w1)
           | (Inr u, w1) \<Rightarrow> (Inr True, w1))
        else (Inr True, w)
      else (Inr False, w))"

text \<open>
  \<^verbatim>\<open>get_vpc_values(vpc_obj)\<close>, lines 203 to 215: the attributes of the object, without
  the three entries that the record does not have, or \<^verbatim>\<open>None\<close>.
\<close>

definition get_vpc_values :: "vpc option \<Rightarrow> vpc option" where
  "get_vpc_values vpc_obj = (case vpc_obj of Some v \<Rightarrow> Some v | None \<Rightarrow> None)"

subsection \<open>The steps of \<^verbatim>\<open>main\<close> for \<^verbatim>\<open>state == 'present'\<close>\<close>

text \<open>
  Lines 271 to 279: without a VPC from the lookup, \<^verbatim>\<open>changed\<close> is set and the VPC is
  created, or in check mode the module exits at once. The step hands on the VPC and
  \<^verbatim>\<open>changed\<close>.
\<close>

definition create_step ::
  "'s connection \<Rightarrow> params \<Rightarrow> vpc option \<Rightarrow> 's world \<Rightarrow> (outcome + vpc \<times> bool) \<times> 's world" where
  "create_step conn p found w =
     (case found of
        Some v \<Rightarrow> (Inr (v, False), w)
      | None \<Rightarrow>
          if \<not> check_mode p then
            (case invoke (Create_vpc (cidr_block p) (tenancy p))
                    (create_vpc conn (cidr_block p) (tenancy p)) w of
               (Inl e, w1) \<Rightarrow> (Inl (except_BotoServerError_msg_e e), w1)
             | (Inr v, w1) \<Rightarrow> (Inr (v, True), w1))
          else (Inl (Exit_json True None), w))"

text \<open>Lines 281 to 286.\<close>

definition dhcp_step ::
  "'s connection \<Rightarrow> params \<Rightarrow> vpc \<Rightarrow> bool \<Rightarrow> 's world \<Rightarrow> (outcome + bool) \<times> 's world" where
  "dhcp_step conn p vpc_obj changed w =
     (case dhcp_opts_id p of
        None \<Rightarrow> (Inr changed, w)
      | Some dhcp_id \<Rightarrow>
          (case update_dhcp_opts conn (check_mode p) vpc_obj dhcp_id w of
             (Inl e, w1) \<Rightarrow> (Inl (except_BotoServerError_msg_e e), w1)
           | (Inr b, w1) \<Rightarrow> (Inr (if b then True else changed), w1)))"

text \<open>
  Lines 288 to 293. \<^verbatim>\<open>name\<close> is a required parameter, so the test
  \<^verbatim>\<open>tags is not None or name is not None\<close> holds in every invocation.
\<close>

definition tags_step ::
  "'s connection \<Rightarrow> params \<Rightarrow> vpc \<Rightarrow> bool \<Rightarrow> 's world \<Rightarrow> (outcome + bool) \<times> 's world" where
  "tags_step conn p vpc_obj changed w =
     (case update_vpc_tags conn (check_mode p) vpc_obj (tags p) (name p) w of
        (Inl out, w1) \<Rightarrow> (Inl out, w1)
      | (Inr b, w1) \<Rightarrow> (Inr (if b then True else changed), w1))"

text \<open>
  Lines 298 to 304: outside check mode the two DNS attributes are written, support
  first. \<^verbatim>\<open>changed\<close> is neither read nor assigned.
\<close>

definition dns_step ::
  "'s connection \<Rightarrow> params \<Rightarrow> vpc \<Rightarrow> 's world \<Rightarrow> (outcome + unit) \<times> 's world" where
  "dns_step conn p vpc_obj w =
     (if \<not> check_mode p then
        (case invoke (Modify_dns_support (vpc_id vpc_obj) (dns_support p))
                (modify_dns_support conn (vpc_id vpc_obj) (dns_support p)) w of
           (Inl e, w1) \<Rightarrow> (Inl (except_BotoServerError e), w1)
         | (Inr u, w1) \<Rightarrow>
             (case invoke (Modify_dns_hostnames (vpc_id vpc_obj) (dns_hostnames p))
                     (modify_dns_hostnames conn (vpc_id vpc_obj) (dns_hostnames p)) w1 of
                (Inl e, w2) \<Rightarrow> (Inl (except_BotoServerError e), w2)
              | (Inr u', w2) \<Rightarrow> (Inr (), w2)))
      else (Inr (), w))"

text \<open>
  Lines 306 to 312: outside check mode the VPC is read again by its id, and the first
  element of the answer is taken.
\<close>

definition refetch_step ::
  "'s connection \<Rightarrow> params \<Rightarrow> vpc \<Rightarrow> 's world \<Rightarrow> (outcome + vpc) \<times> 's world" where
  "refetch_step conn p vpc_obj w =
     (if \<not> check_mode p then
        (case invoke (Get_all_vpcs_ids (vpc_id vpc_obj))
                (get_all_vpcs_ids conn (vpc_id vpc_obj)) w of
           (Inl e, w1) \<Rightarrow> (Inl (except_BotoServerError e), w1)
         | (Inr [], w1) \<Rightarrow> (Inl (Uncaught IndexError), w1)
         | (Inr (v # vs), w1) \<Rightarrow> (Inr v, w1))
      else (Inr vpc_obj, w))"

text \<open>Lines 298 to 314: what remains of the invocation once \<^verbatim>\<open>changed\<close> is final.\<close>

definition finish_present ::
  "'s connection \<Rightarrow> params \<Rightarrow> vpc \<Rightarrow> bool \<Rightarrow> 's world \<Rightarrow> (outcome + outcome) \<times> 's world" where
  "finish_present conn p vpc_obj changed w =
     then_step (dns_step conn p vpc_obj w) (\<lambda>u w1.
     then_step (refetch_step conn p vpc_obj w1) (\<lambda>vpc_obj' w2.
       (Inr (Exit_json changed (get_vpc_values (Some vpc_obj'))), w2)))"

text \<open>
  Lines 269 to 293, the part of the \<^verbatim>\<open>present\<close> branch before the DNS attributes are
  written: it hands on the VPC that the invocation is bound to and the final
  \<^verbatim>\<open>changed\<close>.
\<close>

definition reconcile ::
  "'s connection \<Rightarrow> params \<Rightarrow> 's world \<Rightarrow> (outcome + vpc \<times> bool) \<times> 's world" where
  "reconcile conn p w =
     then_step (vpc_exists conn (name p) (cidr_block p) (multi_ok p) w) (\<lambda>found w1.
     then_step (create_step conn p found w1) (\<lambda>(vpc_obj, changed1) w2.
     then_step (dhcp_step conn p vpc_obj changed1 w2) (\<lambda>changed2 w3.
     then_step (tags_step conn p vpc_obj changed2 w3) (\<lambda>changed3 w4.
       (Inr (vpc_obj, changed3), w4)))))"

text \<open>Lines 266 to 314.\<close>

definition ensure_present ::
  "'s connection \<Rightarrow> params \<Rightarrow> 's world \<Rightarrow> (outcome + outcome) \<times> 's world" where
  "ensure_present conn p w =
     then_step (reconcile conn p w) (\<lambda>(vpc_obj, changed) w4.
       finish_present conn p vpc_obj changed w4)"

text \<open>Lines 316 to 332.\<close>

definition ensure_absent ::
  "'s connection \<Rightarrow> params \<Rightarrow> 's world \<Rightarrow> (outcome + outcome) \<times> 's world" where
  "ensure_absent conn p w =
     then_step (vpc_exists conn (name p) (cidr_block p) (multi_ok p) w) (\<lambda>found w1.
       case found of
         Some vpc_obj \<Rightarrow>
           if \<not> check_mode p then
             (case invoke (Delete_vpc (vpc_id vpc_obj)) (delete_vpc conn (vpc_id vpc_obj)) w1 of
                (Inl e, w2) \<Rightarrow> (Inl (except_delete e), w2)
              | (Inr u, w2) \<Rightarrow> (Inr (Exit_json True (get_vpc_values None)), w2))
           else (Inr (Exit_json True (get_vpc_values None)), w1)
       | None \<Rightarrow> (Inr (Exit_json False (get_vpc_values None)), w1))"

text \<open>
  \<^verbatim>\<open>main\<close> from line 263 on, with the connection already made: the check of the two
  DNS parameters, then the branch on \<^verbatim>\<open>state\<close>. The result is how the invocation ends
  and the world it leaves.
\<close>

definition finished :: "(outcome + outcome) \<times> 's world \<Rightarrow> outcome \<times> 's world" where
  "finished r = (case r of (Inl out, w) \<Rightarrow> (out, w) | (Inr out, w) \<Rightarrow> (out, w))"

definition main :: "'s connection \<Rightarrow> params \<Rightarrow> 's world \<Rightarrow> outcome \<times> 's world" where
  "main conn p w =
     (if dns_hostnames p \<and> \<not> dns_support p
        then (Fail_json Msg_dns_hostnames_requires_dns_support, w)
      else (case state p of
              Present \<Rightarrow> finished (ensure_present conn p w)
            | Absent \<Rightarrow> finished (ensure_absent conn p w)))"

section \<open>A provider to run the module against\<close>

text \<open>
  The provider is not part of the module. This one keeps a list of VPCs and answers
  each request of the connection from it; it never raises, except that reading an id
  that no VPC has is \<^verbatim>\<open>BotoServerError\<close>. How a tag write combines the tags a VPC has
  with the tags written is the parameter \<open>tw\<close> (\<open>replace_tags\<close> keeps the written ones
  only, \<open>merge_tags\<close> keeps every other tag the VPC had as well).
\<close>

record cloud =
  cloud_vpcs :: "vpc list"
  cloud_default_dhcp :: string
  cloud_dns_support :: "(string \<times> bool) list"
  cloud_dns_hostnames :: "(string \<times> bool) list"

definition fresh_id :: "string list \<Rightarrow> string" where
  "fresh_id ids = replicate (Suc (foldr max (map length ids) 0)) (CHR ''v'')"

definition matches :: "string \<Rightarrow> string \<Rightarrow> vpc \<Rightarrow> bool" where
  "matches nm cidr v = (map_of (vpc_tags v) ''Name'' = Some nm \<and> vpc_cidr_block v = cidr)"

definition on_vpc :: "string \<Rightarrow> (vpc \<Rightarrow> vpc) \<Rightarrow> cloud \<Rightarrow> cloud" where
  "on_vpc i f c = c\<lparr>cloud_vpcs := map (\<lambda>v. if vpc_id v = i then f v else v) (cloud_vpcs c)\<rparr>"

definition new_vpc :: "cloud \<Rightarrow> string \<Rightarrow> tenancy \<Rightarrow> vpc" where
  "new_vpc c cidr ten =
     \<lparr>vpc_id = fresh_id (map vpc_id (cloud_vpcs c)), vpc_cidr_block = cidr,
      vpc_state = ''pending'', dhcp_options_id = cloud_default_dhcp c,
      instance_tenancy = ten, is_default = False, classic_link_enabled = False,
      vpc_tags = []\<rparr>"

definition replace_tags :: "dict \<Rightarrow> dict \<Rightarrow> dict" where
  "replace_tags old new = new"

definition merge_tags :: "dict \<Rightarrow> dict \<Rightarrow> dict" where
  "merge_tags old new = foldl (\<lambda>d kv. AList.update (fst kv) (snd kv) d) old new"

definition cloud_conn :: "(dict \<Rightarrow> dict \<Rightarrow> dict) \<Rightarrow> cloud connection" where
  "cloud_conn tw =
     \<lparr>get_all_vpcs_filters = (\<lambda>nm cidr c. (Inr (filter (matches nm cidr) (cloud_vpcs c)), c)),
      get_all_vpcs_ids = (\<lambda>i c.
        (case filter (\<lambda>v. vpc_id v = i) (cloud_vpcs c) of
           [] \<Rightarrow> Inl (BotoServerError ''InvalidVpcID.NotFound'')
         | v # vs \<Rightarrow> Inr (v # vs), c)),
      create_vpc = (\<lambda>cidr ten c.
        (Inr (new_vpc c cidr ten), c\<lparr>cloud_vpcs := cloud_vpcs c @ [new_vpc c cidr ten]\<rparr>)),
      associate_dhcp_options = (\<lambda>d i c. (Inr (), on_vpc i (\<lambda>v. v\<lparr>dhcp_options_id := d\<rparr>) c)),
      get_all_tags = (\<lambda>i c.
        (Inr (concat (map vpc_tags (filter (\<lambda>v. vpc_id v = i) (cloud_vpcs c)))), c)),
      create_tags = (\<lambda>i ts c. (Inr (), on_vpc i (\<lambda>v. v\<lparr>vpc_tags := tw (vpc_tags v) ts\<rparr>) c)),
      modify_dns_support = (\<lambda>i b c.
        (Inr (), c\<lparr>cloud_dns_support := AList.update i b (cloud_dns_support c)\<rparr>)),
      modify_dns_hostnames = (\<lambda>i b c.
        (Inr (), c\<lparr>cloud_dns_hostnames := AList.update i b (cloud_dns_hostnames c)\<rparr>)),
      delete_vpc = (\<lambda>i c. (Inr (), c\<lparr>cloud_vpcs := filter (\<lambda>v. vpc_id v \<noteq> i) (cloud_vpcs c)\<rparr>))\<rparr>"

text \<open>Inputs for the examples: an empty provider, and the parameters of a VPC.\<close>

definition empty_cloud :: cloud where
  "empty_cloud =
     \<lparr>cloud_vpcs = [], cloud_default_dhcp = ''dopt-0'', cloud_dns_support = [],
      cloud_dns_hostnames = []\<rparr>"

definition app_vpc :: params where
  "app_vpc =
     \<lparr>name = ''app-vpc'', cidr_block = ''10.0.0.0/16'', tenancy = Default,
      dns_support = True, dns_hostnames = True, dhcp_opts_id = None, tags = None,
      state = Present, multi_ok = False, check_mode = False\<rparr>"

definition tagged :: "string \<Rightarrow> string \<Rightarrow> dict \<Rightarrow> vpc" where
  "tagged i d ts =
     \<lparr>vpc_id = i, vpc_cidr_block = ''10.0.0.0/16'', vpc_state = ''available'',
      dhcp_options_id = d, instance_tenancy = Default, is_default = False,
      classic_link_enabled = False, vpc_tags = ts\<rparr>"

definition cloud_with :: "vpc list \<Rightarrow> cloud" where
  "cloud_with vs = empty_cloud\<lparr>cloud_vpcs := vs\<rparr>"

definition unreadable_conn :: "cloud connection" where
  "unreadable_conn =
     (cloud_conn replace_tags)
       \<lparr>get_all_vpcs_ids := (\<lambda>i c. (Inl (BotoServerError ''RequestLimitExceeded''), c))\<rparr>"

text \<open>
  Two properties of a state of the provider, for the proof that a second run changes
  nothing. \<open>bound nm cidr c b\<close>: the ids of the VPCs of \<open>c\<close> are distinct, \<open>b\<close> is one
  of them and has the address block \<open>cidr\<close>, and no other VPC of \<open>c\<close> answers the
  lookup for \<open>nm\<close> and \<open>cidr\<close>. \<open>settled p c b\<close>: moreover \<open>b\<close> answers the lookup,
  has the DHCP options and the tags that \<open>p\<close> asks for, and the DNS attributes written
  for it are those of \<open>p\<close>.
\<close>

definition bound :: "string \<Rightarrow> string \<Rightarrow> cloud \<Rightarrow> vpc \<Rightarrow> bool" where
  "bound nm cidr c b \<longleftrightarrow>
     distinct (map vpc_id (cloud_vpcs c)) \<and> b \<in> set (cloud_vpcs c) \<and> vpc_cidr_block b = cidr
     \<and> (\<forall>u \<in> set (cloud_vpcs c). matches nm cidr u \<longrightarrow> u = b)"


section \<open>Evaluating the model\<close>

lemmas module_defs = main_def finished_def ensure_present_def ensure_absent_def reconcile_def
  finish_present_def then_step_def vpc_exists_def create_step_def dhcp_step_def tags_step_def
  dns_step_def refetch_step_def update_dhcp_opts_def update_vpc_tags_def get_vpc_values_def
  invoke_def effective_tags_def dict_of_def dict_eq_def Let_def

lemmas cloud_defs = cloud_conn_def new_vpc_def fresh_id_def on_vpc_def replace_tags_def
  matches_def empty_cloud_def app_vpc_def tagged_def cloud_with_def unreadable_conn_def

lemma invoke_result:
  "invoke c m (s, l) = (fst (m s), (snd (m s), l @ [c]))"
  by (simp add: invoke_def split: prod.splits)

lemma vpc_exists_calls:
  "snd (snd (vpc_exists conn nm cidr multi (s, l))) = l @ [Get_all_vpcs_filters nm cidr]"
  by (simp add: vpc_exists_def invoke_result split: sum.splits prod.splits)

lemmas step_defs = then_step_def vpc_exists_def create_step_def dhcp_step_def tags_step_def
  dns_step_def refetch_step_def update_dhcp_opts_def update_vpc_tags_def get_vpc_values_def
  invoke_result

lemma ensure_present_steps:
  "ensure_present conn p w =
     then_step (vpc_exists conn (name p) (cidr_block p) (multi_ok p) w) (\<lambda>found w1.
     then_step (create_step conn p found w1) (\<lambda>bc w2.
     then_step (dhcp_step conn p (fst bc) (snd bc) w2) (\<lambda>changed2 w3.
     then_step (tags_step conn p (fst bc) changed2 w3) (\<lambda>changed3 w4.
       finish_present conn p (fst bc) changed3 w4))))"
  by (simp add: ensure_present_def reconcile_def then_step_def split: prod.splits sum.splits)

lemma then_step_simps:
  "then_step (Inr x, w) f = f x w"
  "then_step (Inl out, w) f = (Inl out, w)"
  by (simp_all add: then_step_def)


lemma finish_present_exit:
  "finish_present conn p v ch w = (Inr out, w') \<Longrightarrow> \<exists>r. out = Exit_json ch r"
  by (auto simp: finish_present_def then_step_def split: sum.splits prod.splits)





section \<open>Dictionaries as lookups\<close>



lemma distinct_foldl_update:
  "distinct (map fst d) \<Longrightarrow>
     distinct (map fst (foldl (\<lambda>d kv. AList.update (fst kv) (snd kv) d) d ps))"
  by (induction ps arbitrary: d) (simp_all add: distinct_update)

lemma distinct_dict_of: "distinct (map fst (dict_of ps))"
  by (simp add: dict_of_def distinct_foldl_update)

lemma dict_eq_map_of: "dict_eq a b \<longleftrightarrow> map_of a = map_of b"
proof
  assume eq: "dict_eq a b"
  show "map_of a = map_of b"
  proof
    fix k
    show "map_of a k = map_of b k"
    proof (cases "k \<in> fst ` set a \<union> fst ` set b")
      case True
      then show ?thesis using eq by (auto simp: dict_eq_def list_all_iff)
    next
      case False
      then have "map_of a k = None" and "map_of b k = None"
        by (simp_all add: map_of_eq_None_iff)
      then show ?thesis by simp
    qed
  qed
next
  assume "map_of a = map_of b"
  then show "dict_eq a b" by (simp add: dict_eq_def list_all_iff)
qed

lemma distinct_effective_tags:
  "(\<And>t. ts = Some t \<Longrightarrow> distinct (map fst t)) \<Longrightarrow> distinct (map fst (effective_tags ts nm))"
  by (cases ts) (simp_all add: effective_tags_def distinct_update)

lemma dict_eq_set:
  assumes "\<And>t. ts = Some t \<Longrightarrow> distinct (map fst t)"
  shows "dict_eq (effective_tags ts nm) (dict_of found)
     \<longleftrightarrow> set (effective_tags ts nm) = set (dict_of found)"
  using distinct_effective_tags [OF assms] distinct_dict_of
  by (simp add: dict_eq_map_of map_of_inject_set)

section \<open>Validation\<close>

text \<open>
  Claim C3. When \<^verbatim>\<open>dns_hostnames\<close> is true and \<^verbatim>\<open>dns_support\<close> is false, the
  invocation fails with the validation message whatever \<^verbatim>\<open>state\<close> is (present and
  absent alike), the remote state is untouched and no request at all has been sent.
\<close>

theorem invalid_dns_fails_before_any_request:
  "dns_hostnames p \<Longrightarrow> \<not> dns_support p \<Longrightarrow>
     main conn p (s, []) = (Fail_json Msg_dns_hostnames_requires_dns_support, (s, []))"
  by (simp add: main_def)

theorem invalid_dns_fails_before_any_request_witness:
  "dns_hostnames (app_vpc\<lparr>dns_support := False\<rparr>)
   \<and> \<not> dns_support (app_vpc\<lparr>dns_support := False\<rparr>)
   \<and> main (cloud_conn replace_tags) (app_vpc\<lparr>dns_support := False\<rparr>) (empty_cloud, [])
       = (Fail_json Msg_dns_hostnames_requires_dns_support, (empty_cloud, []))
   \<and> main (cloud_conn replace_tags) (app_vpc\<lparr>dns_support := False, state := Absent\<rparr>)
         (empty_cloud, [])
       = (Fail_json Msg_dns_hostnames_requires_dns_support, (empty_cloud, []))"
  using invalid_dns_fails_before_any_request
      [of "app_vpc\<lparr>dns_support := False\<rparr>" "cloud_conn replace_tags" empty_cloud]
    invalid_dns_fails_before_any_request
      [of "app_vpc\<lparr>dns_support := False, state := Absent\<rparr>" "cloud_conn replace_tags"
        empty_cloud]
  by (simp add: app_vpc_def)

section \<open>Check mode\<close>

text \<open>
  Claim C2. In check mode, for every connection, every remote state and both values of
  \<^verbatim>\<open>state\<close>, each request that the invocation sends is the filtered lookup or the
  reading of the tags: none of them is a create, a delete, a tag write, a DHCP
  association or a write of a DNS attribute.
\<close>

theorem check_mode_sends_lookups_only:
  assumes "check_mode p"
  shows "list_all (\<lambda>c. find_or_get_tags c \<and> \<not> mutating c) (snd (snd (main conn p (s, []))))"
  using assms
  by (auto simp: main_def finished_def ensure_present_def ensure_absent_def reconcile_def
      finish_present_def step_defs Let_def
      split: sum.splits prod.splits option.splits target.splits)

theorem check_mode_sends_lookups_only_witness:
  "check_mode (app_vpc\<lparr>check_mode := True, dhcp_opts_id := Some ''dopt-9''\<rparr>)
   \<and> list_all (\<lambda>c. find_or_get_tags c \<and> \<not> mutating c)
        (snd (snd (main (cloud_conn replace_tags)
           (app_vpc\<lparr>check_mode := True, dhcp_opts_id := Some ''dopt-9''\<rparr>)
           (cloud_with [tagged ''vpc-1'' ''dopt-0'' [(''Name'', ''app-vpc''), (''env'', ''dev'')]],
            []))))
   \<and> snd (snd (main (cloud_conn replace_tags)
           (app_vpc\<lparr>check_mode := True, dhcp_opts_id := Some ''dopt-9''\<rparr>)
           (cloud_with [tagged ''vpc-1'' ''dopt-0'' [(''Name'', ''app-vpc''), (''env'', ''dev'')]],
            [])))
       = [Get_all_vpcs_filters ''app-vpc'' ''10.0.0.0/16'', Get_all_tags ''vpc-1'']"
  using check_mode_sends_lookups_only
      [of "app_vpc\<lparr>check_mode := True, dhcp_opts_id := Some ''dopt-9''\<rparr>"
        "cloud_conn replace_tags"
        "cloud_with [tagged ''vpc-1'' ''dopt-0'' [(''Name'', ''app-vpc''), (''env'', ''dev'')]]"]
  by (simp add: module_defs cloud_defs)

text \<open>
  Claim C8. In check mode with \<^verbatim>\<open>state == 'present'\<close>, when the lookup hands back no
  VPC the invocation ends with \<^verbatim>\<open>exit_json(changed=True)\<close> and no VPC, in the world
  that the lookup left: the lookup is the only request sent, so nothing is created,
  compared, read, written or fetched again.
\<close>

theorem check_mode_not_found_exits_at_once:
  assumes "check_mode p" and "state p = Present"
    and "\<not> (dns_hostnames p \<and> \<not> dns_support p)"
    and "vpc_exists conn (name p) (cidr_block p) (multi_ok p) (s, []) = (Inr None, w1)"
  shows "main conn p (s, []) = (Exit_json True None, w1)
     \<and> snd w1 = [Get_all_vpcs_filters (name p) (cidr_block p)]"
proof -
  have "snd w1 = [Get_all_vpcs_filters (name p) (cidr_block p)]"
    using vpc_exists_calls [of conn "name p" "cidr_block p" "multi_ok p" s "[]"] assms(4)
    by simp
  moreover have "main conn p (s, []) = (Exit_json True None, w1)"
    using assms
    by (simp add: main_def finished_def ensure_present_def reconcile_def then_step_def
        create_step_def)
  ultimately show ?thesis by simp
qed

theorem check_mode_not_found_exits_at_once_witness:
  "check_mode (app_vpc\<lparr>check_mode := True\<rparr>)
   \<and> state (app_vpc\<lparr>check_mode := True\<rparr>) = Present
   \<and> vpc_exists (cloud_conn replace_tags) ''app-vpc'' ''10.0.0.0/16'' False (empty_cloud, [])
       = (Inr None, (empty_cloud, [Get_all_vpcs_filters ''app-vpc'' ''10.0.0.0/16'']))
   \<and> main (cloud_conn replace_tags) (app_vpc\<lparr>check_mode := True\<rparr>) (empty_cloud, [])
       = (Exit_json True None,
          (empty_cloud, [Get_all_vpcs_filters ''app-vpc'' ''10.0.0.0/16'']))"
proof -
  have ex: "vpc_exists (cloud_conn replace_tags) ''app-vpc'' ''10.0.0.0/16'' False
       (empty_cloud, [])
     = (Inr None, (empty_cloud, [Get_all_vpcs_filters ''app-vpc'' ''10.0.0.0/16'']))"
    by (simp add: module_defs cloud_defs)
  show ?thesis
    using ex check_mode_not_found_exits_at_once
      [of "app_vpc\<lparr>check_mode := True\<rparr>" "cloud_conn replace_tags" empty_cloud
        "(empty_cloud, [Get_all_vpcs_filters ''app-vpc'' ''10.0.0.0/16''])"]
    by (simp add: app_vpc_def)
qed

section \<open>The lookup\<close>



text \<open>
  Claim C10. With \<^verbatim>\<open>multi_ok\<close> and \<^verbatim>\<open>state == 'absent'\<close>, no delete request is ever
  sent, whatever the connection does; and when the parameters pass the DNS check and
  the lookup answers (with any number of VPCs), the invocation ends with
  \<^verbatim>\<open>exit_json(changed=False, vpc=None)\<close> after the lookup alone.
\<close>

theorem absent_with_multi_ok_never_deletes:
  assumes "multi_ok p" and "state p = Absent"
  shows "(\<forall>i. Delete_vpc i \<notin> set (snd (snd (main conn p (s, [])))))
     \<and> (\<not> (dns_hostnames p \<and> \<not> dns_support p) \<longrightarrow>
        (\<forall>vs s'. get_all_vpcs_filters conn (name p) (cidr_block p) s = (Inr vs, s') \<longrightarrow>
           main conn p (s, []) =
             (Exit_json False None, (s', [Get_all_vpcs_filters (name p) (cidr_block p)]))))"
  using assms
  by (auto simp: main_def finished_def ensure_absent_def then_step_def vpc_exists_def
      invoke_result get_vpc_values_def split: sum.splits prod.splits)

theorem absent_with_multi_ok_never_deletes_witness:
  "multi_ok (app_vpc\<lparr>state := Absent, multi_ok := True\<rparr>)
   \<and> state (app_vpc\<lparr>state := Absent, multi_ok := True\<rparr>) = Absent
   \<and> get_all_vpcs_filters (cloud_conn replace_tags) ''app-vpc'' ''10.0.0.0/16''
        (cloud_with [tagged ''vpc-1'' ''dopt-0'' [(''Name'', ''app-vpc'')]])
       = (Inr [tagged ''vpc-1'' ''dopt-0'' [(''Name'', ''app-vpc'')]],
          cloud_with [tagged ''vpc-1'' ''dopt-0'' [(''Name'', ''app-vpc'')]])
   \<and> main (cloud_conn replace_tags) (app_vpc\<lparr>state := Absent, multi_ok := True\<rparr>)
        (cloud_with [tagged ''vpc-1'' ''dopt-0'' [(''Name'', ''app-vpc'')]], [])
       = (Exit_json False None,
          (cloud_with [tagged ''vpc-1'' ''dopt-0'' [(''Name'', ''app-vpc'')]],
           [Get_all_vpcs_filters ''app-vpc'' ''10.0.0.0/16'']))"
proof -
  let ?a = "tagged ''vpc-1'' ''dopt-0'' [(''Name'', ''app-vpc'')]"
  have one: "get_all_vpcs_filters (cloud_conn replace_tags) ''app-vpc'' ''10.0.0.0/16''
      (cloud_with [?a]) = (Inr [?a], cloud_with [?a])"
    by (simp add: cloud_defs)
  show ?thesis
    using absent_with_multi_ok_never_deletes
        [of "app_vpc\<lparr>state := Absent, multi_ok := True\<rparr>" "cloud_conn replace_tags"
          "cloud_with [?a]"] one
    by (simp add: app_vpc_def)
qed

section \<open>Tags\<close>

text \<open>
  Claim C5. The tags that the tag step compares and writes are, as a lookup, the
  \<^verbatim>\<open>tags\<close> parameter (empty when it is \<^verbatim>\<open>None\<close>) with \<^verbatim>\<open>Name\<close> set to the
  \<^verbatim>\<open>name\<close> parameter, whatever \<^verbatim>\<open>tags\<close> had under that key. When the reading of
  the current tags answers, \<^verbatim>\<open>update_vpc_tags\<close> reports a change exactly when the set
  of key and value pairs of these tags differs from that of the current tags, and it
  sends the tag write exactly when they differ and check mode is off (a write that
  raises ends the invocation with \<^verbatim>\<open>fail_json\<close>). In the present branch this is run
  on the VPC that the invocation is bound to, after the DHCP step: the last steps
  follow with \<^verbatim>\<open>changed\<close> as the DHCP step left it when the tags are equal, and with
  \<^verbatim>\<open>changed = True\<close> when they differ, in check mode without the write and outside
  check mode after it; so an invocation that ends with \<^verbatim>\<open>exit_json\<close> reports
  \<^verbatim>\<open>changed=True\<close> exactly when \<^verbatim>\<open>changed\<close> was set before the tag step or the tags
  differ. The \<^verbatim>\<open>tags\<close> parameter is a dict: its keys are distinct.
\<close>

theorem update_vpc_tags_compares_effective_tags:
  assumes "get_all_tags conn (vpc_id v) s = (Inr found, s1)"
    and "\<forall>t. tags p = Some t \<longrightarrow> distinct (map fst t)"
  shows "map_of (effective_tags (tags p) (name p))
       = (map_of (case tags p of None \<Rightarrow> [] | Some t \<Rightarrow> t))(''Name'' \<mapsto> name p)
     \<and> update_vpc_tags conn (check_mode p) v (tags p) (name p) (s, l) =
         (if set (effective_tags (tags p) (name p)) = set (dict_of found)
            then (Inr False, (s1, l @ [Get_all_tags (vpc_id v)]))
          else if check_mode p then (Inr True, (s1, l @ [Get_all_tags (vpc_id v)]))
          else (case create_tags conn (vpc_id v) (effective_tags (tags p) (name p)) s1 of
                  (Inl e, s2) \<Rightarrow>
                    (Inl (Fail_json (Msg_exception e)),
                     (s2, l @ [Get_all_tags (vpc_id v),
                               Create_tags (vpc_id v) (effective_tags (tags p) (name p))]))
                | (Inr u, s2) \<Rightarrow>
                    (Inr True,
                     (s2, l @ [Get_all_tags (vpc_id v),
                               Create_tags (vpc_id v) (effective_tags (tags p) (name p))]))))
     \<and> (\<forall>w found' w1 ch1 w2 ch2.
           vpc_exists conn (name p) (cidr_block p) (multi_ok p) w = (Inr found', w1) \<longrightarrow>
           create_step conn p found' w1 = (Inr (v, ch1), w2) \<longrightarrow>
           dhcp_step conn p v ch1 w2 = (Inr ch2, (s, l)) \<longrightarrow>
             ensure_present conn p w =
               (if set (effective_tags (tags p) (name p)) = set (dict_of found)
                  then finish_present conn p v ch2 (s1, l @ [Get_all_tags (vpc_id v)])
                else if check_mode p
                  then finish_present conn p v True (s1, l @ [Get_all_tags (vpc_id v)])
                else (case create_tags conn (vpc_id v) (effective_tags (tags p) (name p)) s1 of
                        (Inl e, s2) \<Rightarrow>
                          (Inl (Fail_json (Msg_exception e)),
                           (s2, l @ [Get_all_tags (vpc_id v),
                                     Create_tags (vpc_id v) (effective_tags (tags p) (name p))]))
                      | (Inr u, s2) \<Rightarrow>
                          finish_present conn p v True
                            (s2, l @ [Get_all_tags (vpc_id v),
                                      Create_tags (vpc_id v) (effective_tags (tags p) (name p))])))
           \<and> (\<forall>b r w'. ensure_present conn p w = (Inr (Exit_json b r), w') \<longrightarrow>
                 b = (ch2 \<or> set (effective_tags (tags p) (name p)) \<noteq> set (dict_of found))))"
proof -
  let ?eff = "effective_tags (tags p) (name p)"
  let ?get = "Get_all_tags (vpc_id v)"
  have dt: "\<And>t. tags p = Some t \<Longrightarrow> distinct (map fst t)"
    using assms(2) by simp
  have de: "dict_eq ?eff (dict_of found) \<longleftrightarrow> set ?eff = set (dict_of found)"
    using dt by (rule dict_eq_set)
  have a: "map_of ?eff = (map_of (case tags p of None \<Rightarrow> [] | Some t \<Rightarrow> t))(''Name'' \<mapsto> name p)"
    by (simp add: effective_tags_def update_conv')
  obtain rc s2 where ct: "create_tags conn (vpc_id v) ?eff s1 = (rc, s2)"
    by (metis surj_pair)
  have b: "update_vpc_tags conn (check_mode p) v (tags p) (name p) (s, l) =
         (if set ?eff = set (dict_of found) then (Inr False, (s1, l @ [?get]))
          else if check_mode p then (Inr True, (s1, l @ [?get]))
          else (case create_tags conn (vpc_id v) ?eff s1 of
                  (Inl e, s2) \<Rightarrow>
                    (Inl (Fail_json (Msg_exception e)),
                     (s2, l @ [?get, Create_tags (vpc_id v) ?eff]))
                | (Inr u, s2) \<Rightarrow> (Inr True, (s2, l @ [?get, Create_tags (vpc_id v) ?eff]))))"
    using assms(1) de ct
    by (cases rc) (simp_all add: update_vpc_tags_def invoke_result Let_def)
  have c: "ensure_present conn p w =
               (if set ?eff = set (dict_of found)
                  then finish_present conn p v ch2 (s1, l @ [?get])
                else if check_mode p then finish_present conn p v True (s1, l @ [?get])
                else (case create_tags conn (vpc_id v) ?eff s1 of
                        (Inl e, s2) \<Rightarrow>
                          (Inl (Fail_json (Msg_exception e)),
                           (s2, l @ [?get, Create_tags (vpc_id v) ?eff]))
                      | (Inr u, s2) \<Rightarrow>
                          finish_present conn p v True
                            (s2, l @ [?get, Create_tags (vpc_id v) ?eff])))
           \<and> (\<forall>b r w'. ensure_present conn p w = (Inr (Exit_json b r), w') \<longrightarrow>
                 b = (ch2 \<or> set ?eff \<noteq> set (dict_of found)))"
    if ex: "vpc_exists conn (name p) (cidr_block p) (multi_ok p) w = (Inr found', w1)"
      and cr: "create_step conn p found' w1 = (Inr (v, ch1), w2)"
      and dh: "dhcp_step conn p v ch1 w2 = (Inr ch2, (s, l))"
    for w found' w1 ch1 w2 ch2
  proof -
    have eq: "ensure_present conn p w =
               (if set ?eff = set (dict_of found)
                  then finish_present conn p v ch2 (s1, l @ [?get])
                else if check_mode p then finish_present conn p v True (s1, l @ [?get])
                else (case create_tags conn (vpc_id v) ?eff s1 of
                        (Inl e, s2) \<Rightarrow>
                          (Inl (Fail_json (Msg_exception e)),
                           (s2, l @ [?get, Create_tags (vpc_id v) ?eff]))
                      | (Inr u, s2) \<Rightarrow>
                          finish_present conn p v True
                            (s2, l @ [?get, Create_tags (vpc_id v) ?eff])))"
      using ex cr dh ct
      by (cases rc)
        (simp_all add: ensure_present_steps then_step_simps tags_step_def b)
    have flag: "b = (ch2 \<or> set ?eff \<noteq> set (dict_of found))"
      if run: "ensure_present conn p w = (Inr (Exit_json b r), w')" for b r w'
    proof (cases "set ?eff = set (dict_of found)")
      case True
      with run eq show ?thesis
        by (auto dest: finish_present_exit)
    next
      case False
      show ?thesis
      proof (cases "check_mode p")
        case True
        with run eq False show ?thesis
          by (auto dest: finish_present_exit)
      next
        case nc: False
        show ?thesis
        proof (cases rc)
          case (Inl e)
          with run eq ct False nc show ?thesis by simp
        next
          case (Inr u)
          with run eq ct False nc show ?thesis
            by (auto dest: finish_present_exit)
        qed
      qed
    qed
    show ?thesis
      using eq flag by blast
  qed
  show ?thesis
    using a b c by blast
qed

theorem update_vpc_tags_compares_effective_tags_witness:
  "get_all_tags (cloud_conn replace_tags)
       (vpc_id (tagged ''vpc-1'' ''dopt-0'' [(''Name'', ''app-vpc'')]))
       (cloud_with [tagged ''vpc-1'' ''dopt-0'' [(''Name'', ''app-vpc'')]])
     = (Inr [(''Name'', ''app-vpc'')],
        cloud_with [tagged ''vpc-1'' ''dopt-0'' [(''Name'', ''app-vpc'')]])
   \<and> distinct (map fst [(''Name'', ''X''), (''env'', ''dev'')])
   \<and> map_of (effective_tags (tags (app_vpc\<lparr>tags := Some [(''Name'', ''X''), (''env'', ''dev'')]\<rparr>))
         (name (app_vpc\<lparr>tags := Some [(''Name'', ''X''), (''env'', ''dev'')]\<rparr>)))
       = (map_of [(''Name'', ''X''), (''env'', ''dev'')])(''Name'' \<mapsto> ''app-vpc'')
   \<and> effective_tags (Some [(''Name'', ''X''), (''env'', ''dev'')]) ''app-vpc''
       = [(''Name'', ''app-vpc''), (''env'', ''dev'')]
   \<and> set (effective_tags (tags (app_vpc\<lparr>tags := Some [(''Name'', ''X''), (''env'', ''dev'')]\<rparr>))
         (name (app_vpc\<lparr>tags := Some [(''Name'', ''X''), (''env'', ''dev'')]\<rparr>)))
       \<noteq> set (dict_of [(''Name'', ''app-vpc'')])
   \<and> ensure_present (cloud_conn replace_tags)
        (app_vpc\<lparr>tags := Some [(''Name'', ''X''), (''env'', ''dev'')]\<rparr>)
        (cloud_with [tagged ''vpc-1'' ''dopt-0'' [(''Name'', ''app-vpc'')]], [])
       = (Inr (Exit_json True
            (Some (tagged ''vpc-1'' ''dopt-0'' [(''Name'', ''app-vpc''), (''env'', ''dev'')]))),
          ((cloud_with [tagged ''vpc-1'' ''dopt-0'' [(''Name'', ''app-vpc''), (''env'', ''dev'')]])
             \<lparr>cloud_dns_support := [(''vpc-1'', True)],
              cloud_dns_hostnames := [(''vpc-1'', True)]\<rparr>,
           [Get_all_vpcs_filters ''app-vpc'' ''10.0.0.0/16'', Get_all_tags ''vpc-1'',
            Create_tags ''vpc-1'' [(''Name'', ''app-vpc''), (''env'', ''dev'')],
            Modify_dns_support ''vpc-1'' True, Modify_dns_hostnames ''vpc-1'' True,
            Get_all_vpcs_ids ''vpc-1'']))
   \<and> ensure_present (cloud_conn replace_tags)
        (app_vpc\<lparr>tags := Some [(''Name'', ''X'')], check_mode := True\<rparr>)
        (cloud_with [tagged ''vpc-1'' ''dopt-0'' [(''Name'', ''app-vpc'')]], [])
       = (Inr (Exit_json False (Some (tagged ''vpc-1'' ''dopt-0'' [(''Name'', ''app-vpc'')]))),
          (cloud_with [tagged ''vpc-1'' ''dopt-0'' [(''Name'', ''app-vpc'')]],
           [Get_all_vpcs_filters ''app-vpc'' ''10.0.0.0/16'', Get_all_tags ''vpc-1'']))"
proof -
  let ?C = "cloud_conn replace_tags"
  let ?P = "app_vpc\<lparr>tags := Some [(''Name'', ''X''), (''env'', ''dev'')]\<rparr>"
  let ?v = "tagged ''vpc-1'' ''dopt-0'' [(''Name'', ''app-vpc'')]"
  let ?v' = "tagged ''vpc-1'' ''dopt-0'' [(''Name'', ''app-vpc''), (''env'', ''dev'')]"
  let ?c = "cloud_with [?v]"
  let ?find = "Get_all_vpcs_filters ''app-vpc'' ''10.0.0.0/16''"
  have got: "get_all_tags ?C (vpc_id ?v) ?c = (Inr [(''Name'', ''app-vpc'')], ?c)"
    by (simp add: cloud_defs)
  have dist: "\<forall>t. tags ?P = Some t \<longrightarrow> distinct (map fst t)"
    by (simp add: app_vpc_def)
  have d2: "distinct (map fst [(''Name'', ''X''), (''env'', ''dev'')])"
    by simp
  have ex: "vpc_exists ?C (name ?P) (cidr_block ?P) (multi_ok ?P) (?c, [])
      = (Inr (Some ?v), (?c, [?find]))"
    by (simp add: module_defs cloud_defs)
  have cr: "create_step ?C ?P (Some ?v) (?c, [?find]) = (Inr (?v, False), (?c, [?find]))"
    by (simp add: create_step_def)
  have dh: "dhcp_step ?C ?P ?v False (?c, [?find]) = (Inr False, (?c, [?find]))"
    by (simp add: dhcp_step_def app_vpc_def)
  have run: "ensure_present ?C ?P (?c, [])
      = (Inr (Exit_json True (Some ?v')),
         ((cloud_with [?v'])\<lparr>cloud_dns_support := [(''vpc-1'', True)],
                               cloud_dns_hostnames := [(''vpc-1'', True)]\<rparr>,
          [?find, Get_all_tags ''vpc-1'',
           Create_tags ''vpc-1'' [(''Name'', ''app-vpc''), (''env'', ''dev'')],
           Modify_dns_support ''vpc-1'' True, Modify_dns_hostnames ''vpc-1'' True,
           Get_all_vpcs_ids ''vpc-1'']))"
    by (simp add: module_defs cloud_defs)
  have dry: "ensure_present ?C (app_vpc\<lparr>tags := Some [(''Name'', ''X'')], check_mode := True\<rparr>)
        (?c, [])
      = (Inr (Exit_json False (Some ?v)), (?c, [?find, Get_all_tags ''vpc-1'']))"
    by (simp add: module_defs cloud_defs)
  note inst = update_vpc_tags_compares_effective_tags
      [where conn = ?C and v = ?v and s = ?c and p = ?P and l = "[?find]",
        OF got dist]
  have looked: "map_of (effective_tags (tags ?P) (name ?P))
      = (map_of [(''Name'', ''X''), (''env'', ''dev'')])(''Name'' \<mapsto> ''app-vpc'')"
    using inst [THEN conjunct1] by (simp add: app_vpc_def)
  have eff: "effective_tags (Some [(''Name'', ''X''), (''env'', ''dev'')]) ''app-vpc''
      = [(''Name'', ''app-vpc''), (''env'', ''dev'')]"
    by (simp add: effective_tags_def)
  have "True = (False \<or> set (effective_tags (tags ?P) (name ?P))
      \<noteq> set (dict_of [(''Name'', ''app-vpc'')]))"
    using inst [THEN conjunct2, THEN conjunct2, THEN spec, THEN spec, THEN spec, THEN spec,
        THEN spec, THEN spec, THEN mp, OF ex, THEN mp, OF cr, THEN mp, OF dh, THEN conjunct2,
        THEN spec, THEN spec, THEN spec, THEN mp, OF run] .
  then have differ: "set (effective_tags (tags ?P) (name ?P))
      \<noteq> set (dict_of [(''Name'', ''app-vpc'')])"
    by simp
  show ?thesis
    using got d2 looked eff differ run dry by (intro conjI)
qed

section \<open>DHCP options\<close>

lemma rest_after_dhcp_exit:
  assumes "then_step (tags_step conn p v True w) (\<lambda>changed3 w4.
             finish_present conn p v changed3 w4) = (Inr (Exit_json b r), w')"
  shows "b"
proof -
  obtain r3 w3 where tg: "tags_step conn p v True w = (r3, w3)"
    by (metis surj_pair)
  show ?thesis
  proof (cases r3)
    case (Inl out)
    with tg assms show ?thesis by (simp add: then_step_simps)
  next
    case (Inr ch3)
    with tg have "ch3"
      by (auto simp: tags_step_def split: sum.splits prod.splits if_splits)
    moreover have "finish_present conn p v ch3 w3 = (Inr (Exit_json b r), w')"
      using tg Inr assms by (simp add: then_step_simps)
    ultimately show ?thesis
      using finish_present_exit [of conn p v ch3 w3 "Exit_json b r" w'] by simp
  qed
qed

text \<open>
  Claim C6. With \<^verbatim>\<open>dhcp_opts_id\<close> set, \<^verbatim>\<open>update_dhcp_opts\<close> sends the association
  exactly when the id differs from the one of the VPC and check mode is off; whenever it
  returns, in check mode or not, what it returns is whether the two ids differ (in
  check mode it always returns); and the step of \<^verbatim>\<open>main\<close> sets \<^verbatim>\<open>changed\<close> when they
  differ and leaves it as it was when they are equal, in check mode as in a run that
  writes. In the present branch the comparison is run on the VPC that the invocation
  is bound to, the one handed on by the lookup or the create: when the ids are equal
  the tag step and the last steps follow with \<^verbatim>\<open>changed\<close> as it was and no request
  in between; when they differ in check mode they follow with \<^verbatim>\<open>changed = True\<close> and
  no request in between; when they differ outside check mode the association for that
  VPC is the next request, and the steps follow with \<^verbatim>\<open>changed = True\<close> when it
  answers. Whenever the ids differ, an invocation that ends with \<^verbatim>\<open>exit_json\<close> reports
  \<^verbatim>\<open>changed=True\<close>.
\<close>

theorem update_dhcp_opts_compares_before_check_mode:
  assumes "dhcp_opts_id p = Some d"
  shows "snd (snd (update_dhcp_opts conn chk v d (s, l))) =
       l @ (if dhcp_options_id v \<noteq> d \<and> \<not> chk
            then [Associate_dhcp_options d (vpc_id v)] else [])
     \<and> update_dhcp_opts conn True v d (s, l) = (Inr (dhcp_options_id v \<noteq> d), (s, l))
     \<and> (\<forall>b. fst (update_dhcp_opts conn chk v d (s, l)) = Inr b \<longrightarrow>
           b = (dhcp_options_id v \<noteq> d))
     \<and> (check_mode p \<longrightarrow>
           dhcp_step conn p v ch (s, l) = (Inr (ch \<or> dhcp_options_id v \<noteq> d), (s, l)))
     \<and> (\<forall>b w'. dhcp_step conn p v ch (s, l) = (Inr b, w') \<longrightarrow>
           b = (ch \<or> dhcp_options_id v \<noteq> d))
     \<and> (\<forall>w found w1.
           vpc_exists conn (name p) (cidr_block p) (multi_ok p) w = (Inr found, w1) \<longrightarrow>
           create_step conn p found w1 = (Inr (v, ch), (s, l)) \<longrightarrow>
             ensure_present conn p w =
               (if dhcp_options_id v = d then
                  then_step (tags_step conn p v ch (s, l)) (\<lambda>changed3 w4.
                    finish_present conn p v changed3 w4)
                else if check_mode p then
                  then_step (tags_step conn p v True (s, l)) (\<lambda>changed3 w4.
                    finish_present conn p v changed3 w4)
                else
                  (case associate_dhcp_options conn d (vpc_id v) s of
                     (Inl e, s1) \<Rightarrow>
                       (Inl (except_BotoServerError_msg_e e),
                        (s1, l @ [Associate_dhcp_options d (vpc_id v)]))
                   | (Inr u, s1) \<Rightarrow>
                       then_step (tags_step conn p v True
                           (s1, l @ [Associate_dhcp_options d (vpc_id v)])) (\<lambda>changed3 w4.
                         finish_present conn p v changed3 w4)))
           \<and> (\<forall>b r w'. ensure_present conn p w = (Inr (Exit_json b r), w') \<longrightarrow>
                 dhcp_options_id v \<noteq> d \<longrightarrow> b))"
proof -
  have old: "snd (snd (update_dhcp_opts conn chk v d (s, l))) =
       l @ (if dhcp_options_id v \<noteq> d \<and> \<not> chk
            then [Associate_dhcp_options d (vpc_id v)] else [])
     \<and> update_dhcp_opts conn True v d (s, l) = (Inr (dhcp_options_id v \<noteq> d), (s, l))
     \<and> (\<forall>b. fst (update_dhcp_opts conn chk v d (s, l)) = Inr b \<longrightarrow>
           b = (dhcp_options_id v \<noteq> d))
     \<and> (check_mode p \<longrightarrow>
           dhcp_step conn p v ch (s, l) = (Inr (ch \<or> dhcp_options_id v \<noteq> d), (s, l)))
     \<and> (\<forall>b w'. dhcp_step conn p v ch (s, l) = (Inr b, w') \<longrightarrow>
           b = (ch \<or> dhcp_options_id v \<noteq> d))"
    using assms
    by (auto simp: update_dhcp_opts_def dhcp_step_def invoke_result split: sum.splits prod.splits)
  have new: "ensure_present conn p w =
               (if dhcp_options_id v = d then
                  then_step (tags_step conn p v ch (s, l)) (\<lambda>changed3 w4.
                    finish_present conn p v changed3 w4)
                else if check_mode p then
                  then_step (tags_step conn p v True (s, l)) (\<lambda>changed3 w4.
                    finish_present conn p v changed3 w4)
                else
                  (case associate_dhcp_options conn d (vpc_id v) s of
                     (Inl e, s1) \<Rightarrow>
                       (Inl (except_BotoServerError_msg_e e),
                        (s1, l @ [Associate_dhcp_options d (vpc_id v)]))
                   | (Inr u, s1) \<Rightarrow>
                       then_step (tags_step conn p v True
                           (s1, l @ [Associate_dhcp_options d (vpc_id v)])) (\<lambda>changed3 w4.
                         finish_present conn p v changed3 w4)))
           \<and> (\<forall>b r w'. ensure_present conn p w = (Inr (Exit_json b r), w') \<longrightarrow>
                 dhcp_options_id v \<noteq> d \<longrightarrow> b)"
    if ex: "vpc_exists conn (name p) (cidr_block p) (multi_ok p) w = (Inr found, w1)"
      and cr: "create_step conn p found w1 = (Inr (v, ch), (s, l))"
    for w found w1
  proof -
    obtain ra s1 where as: "associate_dhcp_options conn d (vpc_id v) s = (ra, s1)"
      by (metis surj_pair)
    have eq: "ensure_present conn p w =
               (if dhcp_options_id v = d then
                  then_step (tags_step conn p v ch (s, l)) (\<lambda>changed3 w4.
                    finish_present conn p v changed3 w4)
                else if check_mode p then
                  then_step (tags_step conn p v True (s, l)) (\<lambda>changed3 w4.
                    finish_present conn p v changed3 w4)
                else
                  (case associate_dhcp_options conn d (vpc_id v) s of
                     (Inl e, s1) \<Rightarrow>
                       (Inl (except_BotoServerError_msg_e e),
                        (s1, l @ [Associate_dhcp_options d (vpc_id v)]))
                   | (Inr u, s1) \<Rightarrow>
                       then_step (tags_step conn p v True
                           (s1, l @ [Associate_dhcp_options d (vpc_id v)])) (\<lambda>changed3 w4.
                         finish_present conn p v changed3 w4)))"
      using assms ex cr as
      by (cases ra)
        (simp_all add: ensure_present_steps then_step_simps dhcp_step_def update_dhcp_opts_def
          invoke_result)
    have flag: "b" if run: "ensure_present conn p w = (Inr (Exit_json b r), w')"
      and ne: "dhcp_options_id v \<noteq> d" for b r w'
    proof (cases "check_mode p")
      case True
      with run ne eq show ?thesis
        by (auto dest: rest_after_dhcp_exit)
    next
      case False
      show ?thesis
      proof (cases ra)
        case (Inl e)
        with run ne eq as False show ?thesis by simp
      next
        case (Inr u)
        with run ne eq as False show ?thesis
          by (auto dest: rest_after_dhcp_exit)
      qed
    qed
    show ?thesis
      using eq flag by blast
  qed
  show ?thesis
    using old new by blast
qed

theorem update_dhcp_opts_compares_before_check_mode_witness:
  "dhcp_opts_id (app_vpc\<lparr>dhcp_opts_id := Some ''dopt-9''\<rparr>) = Some ''dopt-9''
   \<and> dhcp_step (cloud_conn replace_tags) (app_vpc\<lparr>dhcp_opts_id := Some ''dopt-9''\<rparr>)
        (tagged ''vpc-1'' ''dopt-0'' []) False (cloud_with [tagged ''vpc-1'' ''dopt-0'' []], [])
       = (Inr True, (cloud_with [tagged ''vpc-1'' ''dopt-9'' []],
                     [Associate_dhcp_options ''dopt-9'' ''vpc-1'']))
   \<and> dhcp_step (cloud_conn replace_tags)
        (app_vpc\<lparr>dhcp_opts_id := Some ''dopt-9'', check_mode := True\<rparr>)
        (tagged ''vpc-1'' ''dopt-0'' []) False (cloud_with [tagged ''vpc-1'' ''dopt-0'' []], [])
       = (Inr True, (cloud_with [tagged ''vpc-1'' ''dopt-0'' []], []))
   \<and> dhcp_step (cloud_conn replace_tags) (app_vpc\<lparr>dhcp_opts_id := Some ''dopt-9''\<rparr>)
        (tagged ''vpc-1'' ''dopt-9'' []) False (cloud_with [tagged ''vpc-1'' ''dopt-9'' []], [])
       = (Inr False, (cloud_with [tagged ''vpc-1'' ''dopt-9'' []], []))
   \<and> ensure_present (cloud_conn replace_tags) (app_vpc\<lparr>dhcp_opts_id := Some ''dopt-9''\<rparr>)
        (cloud_with [tagged ''vpc-1'' ''dopt-0'' [(''Name'', ''app-vpc'')]], [])
       = then_step
           (tags_step (cloud_conn replace_tags) (app_vpc\<lparr>dhcp_opts_id := Some ''dopt-9''\<rparr>)
              (tagged ''vpc-1'' ''dopt-0'' [(''Name'', ''app-vpc'')]) True
              (cloud_with [tagged ''vpc-1'' ''dopt-9'' [(''Name'', ''app-vpc'')]],
               [Get_all_vpcs_filters ''app-vpc'' ''10.0.0.0/16'',
                Associate_dhcp_options ''dopt-9'' ''vpc-1'']))
           (\<lambda>changed3 w4.
              finish_present (cloud_conn replace_tags)
                (app_vpc\<lparr>dhcp_opts_id := Some ''dopt-9''\<rparr>)
                (tagged ''vpc-1'' ''dopt-0'' [(''Name'', ''app-vpc'')]) changed3 w4)
   \<and> fst (ensure_present (cloud_conn replace_tags)
        (app_vpc\<lparr>dhcp_opts_id := Some ''dopt-9''\<rparr>)
        (cloud_with [tagged ''vpc-1'' ''dopt-0'' [(''Name'', ''app-vpc'')]], []))
       = Inr (Exit_json True (Some (tagged ''vpc-1'' ''dopt-9'' [(''Name'', ''app-vpc'')])))
   \<and> ensure_present (cloud_conn replace_tags)
        (app_vpc\<lparr>dhcp_opts_id := Some ''dopt-9'', check_mode := True\<rparr>)
        (cloud_with [tagged ''vpc-1'' ''dopt-0'' [(''Name'', ''app-vpc'')]], [])
       = (Inr (Exit_json True (Some (tagged ''vpc-1'' ''dopt-0'' [(''Name'', ''app-vpc'')]))),
          (cloud_with [tagged ''vpc-1'' ''dopt-0'' [(''Name'', ''app-vpc'')]],
           [Get_all_vpcs_filters ''app-vpc'' ''10.0.0.0/16'', Get_all_tags ''vpc-1'']))"
proof -
  let ?C = "cloud_conn replace_tags"
  let ?P = "app_vpc\<lparr>dhcp_opts_id := Some ''dopt-9''\<rparr>"
  let ?D = "app_vpc\<lparr>dhcp_opts_id := Some ''dopt-9'', check_mode := True\<rparr>"
  let ?u = "tagged ''vpc-1'' ''dopt-0'' []"
  let ?u9 = "tagged ''vpc-1'' ''dopt-9'' []"
  let ?v = "tagged ''vpc-1'' ''dopt-0'' [(''Name'', ''app-vpc'')]"
  let ?v9 = "tagged ''vpc-1'' ''dopt-9'' [(''Name'', ''app-vpc'')]"
  let ?find = "Get_all_vpcs_filters ''app-vpc'' ''10.0.0.0/16''"
  have hP: "dhcp_opts_id ?P = Some ''dopt-9''" and hD: "dhcp_opts_id ?D = Some ''dopt-9''"
    by (simp_all add: app_vpc_def)
  have r1: "dhcp_step ?C ?P ?u False (cloud_with [?u], [])
      = (Inr True, (cloud_with [?u9], [Associate_dhcp_options ''dopt-9'' ''vpc-1'']))"
    and r3: "dhcp_step ?C ?P ?u9 False (cloud_with [?u9], []) = (Inr False, (cloud_with [?u9], []))"
    by (simp_all add: module_defs cloud_defs)
  have chk: "check_mode ?D"
    by (simp add: app_vpc_def)
  have r2: "dhcp_step ?C ?D ?u False (cloud_with [?u], []) = (Inr True, (cloud_with [?u], []))"
    using update_dhcp_opts_compares_before_check_mode
        [where v = ?u and ch = False and s = "cloud_with [?u]" and l = "[]" and conn = ?C,
          OF hD, THEN conjunct2, THEN conjunct2, THEN conjunct2, THEN conjunct1] chk
    by (simp add: tagged_def)
  have ex: "vpc_exists ?C (name ?P) (cidr_block ?P) (multi_ok ?P) (cloud_with [?v], [])
      = (Inr (Some ?v), (cloud_with [?v], [?find]))"
    by (simp add: module_defs cloud_defs)
  have cr: "create_step ?C ?P (Some ?v) (cloud_with [?v], [?find])
      = (Inr (?v, False), (cloud_with [?v], [?find]))"
    by (simp add: create_step_def)
  have as: "associate_dhcp_options ?C ''dopt-9'' ''vpc-1'' (cloud_with [?v])
      = (Inr (), cloud_with [?v9])"
    by (simp add: cloud_defs)
  have ne: "dhcp_options_id ?v \<noteq> ''dopt-9''" and nchk: "\<not> check_mode ?P"
    and i: "vpc_id ?v = ''vpc-1''"
    by (simp_all add: tagged_def app_vpc_def)
  note inst = update_dhcp_opts_compares_before_check_mode
      [where v = ?v and ch = False and s = "cloud_with [?v]" and l = "[?find]" and conn = ?C,
        OF hP, THEN conjunct2, THEN conjunct2, THEN conjunct2, THEN conjunct2, THEN conjunct2,
        THEN spec, THEN spec, THEN spec, THEN mp, OF ex, THEN mp, OF cr, THEN conjunct1]
  have r4: "ensure_present ?C ?P (cloud_with [?v], [])
      = then_step (tags_step ?C ?P ?v True
            (cloud_with [?v9], [?find, Associate_dhcp_options ''dopt-9'' ''vpc-1'']))
          (\<lambda>changed3 w4. finish_present ?C ?P ?v changed3 w4)"
    by (subst inst) (simp add: ne nchk as i)
  have r5: "fst (ensure_present ?C ?P (cloud_with [?v], [])) = Inr (Exit_json True (Some ?v9))"
    and r6: "ensure_present ?C ?D (cloud_with [?v], [])
      = (Inr (Exit_json True (Some ?v)), (cloud_with [?v], [?find, Get_all_tags ''vpc-1'']))"
    by (simp_all add: module_defs cloud_defs)
  show ?thesis
    using hP r1 r2 r3 r4 r5 r6 by (intro conjI)
qed

section \<open>DNS attributes and the last steps\<close>

lemma steps_ignore_dns_methods:
  "vpc_exists (conn\<lparr>modify_dns_support := m1, modify_dns_hostnames := m2\<rparr>) = vpc_exists conn"
  "create_step (conn\<lparr>modify_dns_support := m1, modify_dns_hostnames := m2\<rparr>) = create_step conn"
  "dhcp_step (conn\<lparr>modify_dns_support := m1, modify_dns_hostnames := m2\<rparr>) = dhcp_step conn"
  "tags_step (conn\<lparr>modify_dns_support := m1, modify_dns_hostnames := m2\<rparr>) = tags_step conn"
  by (simp_all add: fun_eq_iff vpc_exists_def create_step_def dhcp_step_def tags_step_def
      update_dhcp_opts_def update_vpc_tags_def
      cong: option.case_cong sum.case_cong prod.case_cong if_cong)

lemma reconcile_ignores_dns_methods:
  "reconcile (conn\<lparr>modify_dns_support := m1, modify_dns_hostnames := m2\<rparr>) p w
     = reconcile conn p w"
  by (simp add: reconcile_def steps_ignore_dns_methods)

text \<open>
  Claim C7. Take an invocation with \<^verbatim>\<open>state == 'present'\<close> outside check mode that
  reaches the DNS step: the steps before it hand on the VPC and \<^verbatim>\<open>changed\<close>. Then the
  next request is the write of \<^verbatim>\<open>enable_dns_support\<close> for that VPC with the
  \<^verbatim>\<open>dns_support\<close> parameter, whatever \<^verbatim>\<open>changed\<close> is; an invocation that ends with
  \<^verbatim>\<open>exit_json\<close> has sent the write of \<^verbatim>\<open>enable_dns_hostnames\<close> with the
  \<^verbatim>\<open>dns_hostnames\<close> parameter right after it and reports exactly that \<^verbatim>\<open>changed\<close>;
  and the same \<^verbatim>\<open>changed\<close> is reported when the two DNS methods of the connection
  are replaced by any others.
\<close>

theorem dns_attributes_written_and_not_counted:
  assumes "\<not> check_mode p" and "reconcile conn p w = (Inr (v, ch), (s4, l4))"
  shows "(\<exists>rest. snd (snd (ensure_present conn p w))
            = l4 @ Modify_dns_support (vpc_id v) (dns_support p) # rest)
     \<and> (\<forall>out w'. ensure_present conn p w = (Inr out, w') \<longrightarrow>
           (\<exists>v'. out = Exit_json ch (Some v'))
         \<and> (\<exists>rest. snd w' = l4 @ Modify_dns_support (vpc_id v) (dns_support p)
                # Modify_dns_hostnames (vpc_id v) (dns_hostnames p) # rest))
     \<and> (\<forall>m1 m2 out w'.
           ensure_present (conn\<lparr>modify_dns_support := m1, modify_dns_hostnames := m2\<rparr>) p w
             = (Inr out, w') \<longrightarrow> (\<exists>v'. out = Exit_json ch (Some v')))"
proof -
  have a: "\<exists>rest. snd (snd (ensure_present conn p w))
            = l4 @ Modify_dns_support (vpc_id v) (dns_support p) # rest"
    using assms
    by (auto simp: ensure_present_def finish_present_def then_step_def dns_step_def
        refetch_step_def invoke_result get_vpc_values_def split: sum.splits prod.splits list.splits)
  have b: "\<And>conn' out w'. reconcile conn' p w = (Inr (v, ch), (s4, l4)) \<Longrightarrow>
      ensure_present conn' p w = (Inr out, w') \<Longrightarrow>
      (\<exists>v'. out = Exit_json ch (Some v'))
         \<and> (\<exists>rest. snd w' = l4 @ Modify_dns_support (vpc_id v) (dns_support p)
                # Modify_dns_hostnames (vpc_id v) (dns_hostnames p) # rest)"
    using assms(1)
    by (auto simp: ensure_present_def finish_present_def then_step_def dns_step_def
        refetch_step_def invoke_result get_vpc_values_def split: sum.splits prod.splits list.splits)
  have c: "\<And>m1 m2 out w'.
      ensure_present (conn\<lparr>modify_dns_support := m1, modify_dns_hostnames := m2\<rparr>) p w
        = (Inr out, w') \<Longrightarrow> \<exists>v'. out = Exit_json ch (Some v')"
    using b assms(2) by (metis reconcile_ignores_dns_methods)
  show ?thesis
    using a b [OF assms(2)] c by blast
qed

theorem dns_attributes_written_and_not_counted_witness:
  "\<not> check_mode app_vpc
   \<and> reconcile (cloud_conn replace_tags) app_vpc
        (cloud_with [tagged ''vpc-1'' ''dopt-0'' [(''Name'', ''app-vpc'')]], [])
       = (Inr (tagged ''vpc-1'' ''dopt-0'' [(''Name'', ''app-vpc'')], False),
          (cloud_with [tagged ''vpc-1'' ''dopt-0'' [(''Name'', ''app-vpc'')]],
           [Get_all_vpcs_filters ''app-vpc'' ''10.0.0.0/16'', Get_all_tags ''vpc-1'']))
   \<and> fst (ensure_present (cloud_conn replace_tags) app_vpc
        (cloud_with [tagged ''vpc-1'' ''dopt-0'' [(''Name'', ''app-vpc'')]], []))
       = Inr (Exit_json False (Some (tagged ''vpc-1'' ''dopt-0'' [(''Name'', ''app-vpc'')])))
   \<and> snd (snd (ensure_present (cloud_conn replace_tags) app_vpc
        (cloud_with [tagged ''vpc-1'' ''dopt-0'' [(''Name'', ''app-vpc'')]], [])))
       = [Get_all_vpcs_filters ''app-vpc'' ''10.0.0.0/16'', Get_all_tags ''vpc-1'',
          Modify_dns_support ''vpc-1'' True, Modify_dns_hostnames ''vpc-1'' True,
          Get_all_vpcs_ids ''vpc-1'']"
proof -
  let ?v = "tagged ''vpc-1'' ''dopt-0'' [(''Name'', ''app-vpc'')]"
  let ?l = "[Get_all_vpcs_filters ''app-vpc'' ''10.0.0.0/16'', Get_all_tags ''vpc-1'']"
  have nc: "\<not> check_mode app_vpc"
    by (simp add: app_vpc_def)
  have rec: "reconcile (cloud_conn replace_tags) app_vpc (cloud_with [?v], [])
      = (Inr (?v, False), (cloud_with [?v], ?l))"
    by (simp add: module_defs cloud_defs)
  have run: "fst (ensure_present (cloud_conn replace_tags) app_vpc (cloud_with [?v], []))
      = Inr (Exit_json False (Some ?v))"
    and sent: "snd (snd (ensure_present (cloud_conn replace_tags) app_vpc (cloud_with [?v], [])))
      = ?l @ [Modify_dns_support ''vpc-1'' True, Modify_dns_hostnames ''vpc-1'' True,
          Get_all_vpcs_ids ''vpc-1'']"
    by (simp_all add: module_defs cloud_defs)
  note inst = dns_attributes_written_and_not_counted [OF nc rec]
  from inst have "\<exists>rest. snd (snd (ensure_present (cloud_conn replace_tags) app_vpc
        (cloud_with [?v], []))) = ?l @ Modify_dns_support (vpc_id ?v) (dns_support app_vpc) # rest"
    by (rule conjunct1)
  with nc rec run sent show ?thesis
    by simp
qed

text \<open>
  Claim C9 says that nothing can fail once the DNS attributes are written. The module
  reads the VPC again after that, and a \<^verbatim>\<open>BotoServerError\<close> of that request is caught
  and ends the invocation with \<^verbatim>\<open>fail_json\<close> (lines 308 to 312). Here the provider
  refuses the reading by id: the VPC is created and tagged, both DNS attributes are
  written, and the invocation fails.
\<close>

theorem refetch_fails_after_dns_counterexample:
  "fst (main unreadable_conn app_vpc (empty_cloud, []))
     = Fail_json (Msg_exception (BotoServerError ''RequestLimitExceeded''))
   \<and> snd (snd (main unreadable_conn app_vpc (empty_cloud, [])))
     = [Get_all_vpcs_filters ''app-vpc'' ''10.0.0.0/16'', Create_vpc ''10.0.0.0/16'' Default,
        Get_all_tags ''v'', Create_tags ''v'' [(''Name'', ''app-vpc'')],
        Modify_dns_support ''v'' True, Modify_dns_hostnames ''v'' True,
        Get_all_vpcs_ids ''v'']"
  by (simp add: module_defs cloud_defs)

text \<open>
  Claim C9, amended. Once the DNS step has completed: in check mode no further request
  is sent and the invocation ends with \<^verbatim>\<open>exit_json\<close>, with \<^verbatim>\<open>changed\<close> and the VPC
  it is bound to; outside check mode the one remaining request is the reading of the
  VPC by its id, and the invocation ends with \<^verbatim>\<open>exit_json\<close>, with \<^verbatim>\<open>changed\<close> and
  the first VPC of the answer, when that request answers with at least one VPC, and with
  \<^verbatim>\<open>fail_json\<close> when it raises \<^verbatim>\<open>BotoServerError\<close>.
\<close>

theorem after_dns_only_the_refetch_can_fail:
  assumes "dns_step conn p v (s, l) = (Inr (), (s1, l1))"
  shows "(check_mode p \<longrightarrow>
            finish_present conn p v ch (s, l) = (Inr (Exit_json ch (Some v)), (s1, l1)))
     \<and> (\<not> check_mode p \<longrightarrow>
          (\<forall>v' vs s2. get_all_vpcs_ids conn (vpc_id v) s1 = (Inr (v' # vs), s2) \<longrightarrow>
             finish_present conn p v ch (s, l) =
               (Inr (Exit_json ch (Some v')), (s2, l1 @ [Get_all_vpcs_ids (vpc_id v)])))
        \<and> (\<forall>m s2. get_all_vpcs_ids conn (vpc_id v) s1 = (Inl (BotoServerError m), s2) \<longrightarrow>
             finish_present conn p v ch (s, l) =
               (Inl (Fail_json (Msg_exception (BotoServerError m))),
                (s2, l1 @ [Get_all_vpcs_ids (vpc_id v)]))))"
  using assms
  by (simp add: finish_present_def then_step_def refetch_step_def invoke_result get_vpc_values_def)

theorem after_dns_only_the_refetch_can_fail_witness:
  "dns_step (cloud_conn replace_tags) (app_vpc\<lparr>check_mode := True\<rparr>)
        (tagged ''vpc-1'' ''dopt-0'' []) (cloud_with [tagged ''vpc-1'' ''dopt-0'' []], [])
       = (Inr (), (cloud_with [tagged ''vpc-1'' ''dopt-0'' []], []))
   \<and> finish_present (cloud_conn replace_tags) (app_vpc\<lparr>check_mode := True\<rparr>)
        (tagged ''vpc-1'' ''dopt-0'' []) True (cloud_with [tagged ''vpc-1'' ''dopt-0'' []], [])
       = (Inr (Exit_json True (Some (tagged ''vpc-1'' ''dopt-0'' []))),
          (cloud_with [tagged ''vpc-1'' ''dopt-0'' []], []))
   \<and> fst (dns_step (cloud_conn replace_tags) app_vpc
        (tagged ''vpc-1'' ''dopt-0'' []) (cloud_with [tagged ''vpc-1'' ''dopt-0'' []], []))
       = Inr ()
   \<and> fst (finish_present (cloud_conn replace_tags) app_vpc
        (tagged ''vpc-1'' ''dopt-0'' []) True (cloud_with [tagged ''vpc-1'' ''dopt-0'' []], []))
       = Inr (Exit_json True (Some (tagged ''vpc-1'' ''dopt-0'' [])))
   \<and> fst (dns_step unreadable_conn app_vpc
        (tagged ''vpc-1'' ''dopt-0'' []) (cloud_with [tagged ''vpc-1'' ''dopt-0'' []], []))
       = Inr ()
   \<and> fst (finish_present unreadable_conn app_vpc
        (tagged ''vpc-1'' ''dopt-0'' []) True (cloud_with [tagged ''vpc-1'' ''dopt-0'' []], []))
       = Inl (Fail_json (Msg_exception (BotoServerError ''RequestLimitExceeded'')))"
proof -
  let ?v = "tagged ''vpc-1'' ''dopt-0'' []"
  let ?c = "cloud_with [?v]"
  let ?c1 = "?c\<lparr>cloud_dns_support := [(''vpc-1'', True)],
               cloud_dns_hostnames := [(''vpc-1'', True)]\<rparr>"
  let ?l1 = "[Modify_dns_support ''vpc-1'' True, Modify_dns_hostnames ''vpc-1'' True]"
  have chk: "check_mode (app_vpc\<lparr>check_mode := True\<rparr>)" and nchk: "\<not> check_mode app_vpc"
    by (simp_all add: app_vpc_def)
  have d0: "dns_step (cloud_conn replace_tags) (app_vpc\<lparr>check_mode := True\<rparr>) ?v (?c, [])
      = (Inr (), (?c, []))"
    by (simp add: module_defs cloud_defs)
  have d1: "dns_step (cloud_conn replace_tags) app_vpc ?v (?c, []) = (Inr (), (?c1, ?l1))"
    by (simp add: module_defs cloud_defs)
  have d2: "dns_step unreadable_conn app_vpc ?v (?c, []) = (Inr (), (?c1, ?l1))"
    by (simp add: module_defs cloud_defs)
  have g1: "get_all_vpcs_ids (cloud_conn replace_tags) (vpc_id ?v) ?c1 = (Inr (?v # []), ?c1)"
    by (simp add: cloud_defs)
  have g2: "get_all_vpcs_ids unreadable_conn (vpc_id ?v) ?c1
      = (Inl (BotoServerError ''RequestLimitExceeded''), ?c1)"
    by (simp add: cloud_defs)
  have r0: "finish_present (cloud_conn replace_tags) (app_vpc\<lparr>check_mode := True\<rparr>) ?v True
      (?c, []) = (Inr (Exit_json True (Some ?v)), (?c, []))"
    using after_dns_only_the_refetch_can_fail [OF d0, of True] chk by blast
  have r1: "finish_present (cloud_conn replace_tags) app_vpc ?v True (?c, [])
      = (Inr (Exit_json True (Some ?v)), (?c1, ?l1 @ [Get_all_vpcs_ids (vpc_id ?v)]))"
    using after_dns_only_the_refetch_can_fail [OF d1, of True] nchk g1 by blast
  have r2: "finish_present unreadable_conn app_vpc ?v True (?c, [])
      = (Inl (Fail_json (Msg_exception (BotoServerError ''RequestLimitExceeded''))),
         (?c1, ?l1 @ [Get_all_vpcs_ids (vpc_id ?v)]))"
    using after_dns_only_the_refetch_can_fail [OF d2, of True] nchk g2 by blast
  show ?thesis
    using d0 d1 d2 r0 r1 r2 by simp
qed

section \<open>Running the module twice\<close>






lemma bound_same_vpcs:
  "cloud_vpcs c' = cloud_vpcs c \<Longrightarrow> bound nm cidr c b \<Longrightarrow> bound nm cidr c' b"
  by (simp add: bound_def)





















text \<open>
  The condition on the tag write is needed. When a tag write keeps the other tags that
  the VPC had, as \<open>merge_tags\<close> does, a VPC with a tag that the parameters do not have
  never gets the tags compared for, and every run reports a change.
\<close>

lemma second_run_with_merged_tags:
  "fst (main (cloud_conn merge_tags) app_vpc
       (cloud_with [tagged ''vpc-1'' ''dopt-0'' [(''Name'', ''app-vpc''), (''env'', ''dev'')]], []))
     = Exit_json True
         (Some (tagged ''vpc-1'' ''dopt-0'' [(''Name'', ''app-vpc''), (''env'', ''dev'')]))
   \<and> fst (main (cloud_conn merge_tags) app_vpc
       (fst (snd (main (cloud_conn merge_tags) app_vpc
          (cloud_with [tagged ''vpc-1'' ''dopt-0''
             [(''Name'', ''app-vpc''), (''env'', ''dev'')]], []))), []))
     = Exit_json True
         (Some (tagged ''vpc-1'' ''dopt-0'' [(''Name'', ''app-vpc''), (''env'', ''dev'')]))"
  by (simp add: module_defs cloud_defs merge_tags_def)

end
